theory Spec2Isabelle
  imports Main
begin

text \<open>
  The package \<open>handgover\<close> fills the fields of a struct from named sources of raw strings:
  \<open>handover.go\<close> holds the coercions (\<open>setValue\<close> and the functions it switches to) and the
  driver \<open>Sources.To\<close>, \<open>errors.go\<close> the structured error. Both are embedded here as
  functions over an explicit heap, together with the parts of \<open>strconv\<close>, \<open>time\<close>, \<open>strings\<close> and
  \<open>unicode/utf8\<close> that they call and whose results the properties below depend on.
\<close>

section \<open>Errors\<close>

text \<open>
  Go's \<open>error\<close> is an interface. The dynamic types that \<open>newError\<close> tells apart in its
  type switch are constructors of their own; every other error value (\<open>errors.New\<close>,
  \<open>fmt.Errorf\<close>, \<open>*json.SyntaxError\<close>, ...) is an \<open>errorString\<close> carrying its message.
  \<open>Error\<close> is the structured error of \<open>errors.go\<close>; it is an \<open>error\<close> too.
\<close>

datatype error =
    errorString string
  | NumError string string error
  | ParseError string string string
  | UnsupportedValueError string
  | Error (Field: string) (Source: string) (Value: string) (InnerError: error)

text \<open>
  \<open>NumError Func Num Err\<close> is \<open>*strconv.NumError\<close>, \<open>ParseError Layout Value Message\<close> is
  \<open>*time.ParseError\<close>, \<open>UnsupportedValueError Str\<close> is \<open>*json.UnsupportedValueError\<close>.
\<close>

text \<open>What a call leaves behind: a \<open>nil\<close> error, a non-nil error, or a run-time panic.\<close>

datatype outcome = OK | Fail error | Panic string

section \<open>The \<open>strconv\<close> functions the coercions call\<close>

text \<open>
  Strings are Go strings: sequences of bytes. Machine integers are integers, with the
  wrap-around written out where the code can reach it. The base is the constant 10 of the call
  sites (\<open>strconv.ParseInt(values[0], 10, size)\<close>), so the prefix and underscore handling of
  base 0 is not reachable and left out.
\<close>

definition ErrSyntax :: error where
  "ErrSyntax = errorString ''invalid syntax''"

definition ErrRange :: error where
  "ErrRange = errorString ''value out of range''"

definition syntaxError :: "string \<Rightarrow> string \<Rightarrow> error" where
  "syntaxError fn str = NumError fn str ErrSyntax"

definition rangeError :: "string \<Rightarrow> string \<Rightarrow> error" where
  "rangeError fn str = NumError fn str ErrRange"

definition byte :: "char \<Rightarrow> int" where
  "byte c = of_char c"

definition lower :: "char \<Rightarrow> int" where
  "lower c = (if (byte c div 32) mod 2 = 1 then byte c else byte c + 32)"

text \<open>The digit switch of \<open>ParseUint\<close>: a decimal digit, a letter, or neither.\<close>

definition digitVal :: "char \<Rightarrow> int option" where
  "digitVal c =
     (if 48 \<le> byte c \<and> byte c \<le> 57 then Some (byte c - 48)
      else if 97 \<le> lower c \<and> lower c \<le> 122 then Some (lower c - 97 + 10)
      else None)"

definition cutoff10 :: int where
  "cutoff10 = (2 ^ 64 - 1) div 10 + 1"

fun parseUintLoop :: "string \<Rightarrow> int \<Rightarrow> string \<Rightarrow> int \<Rightarrow> int \<times> error option" where
  "parseUintLoop s0 maxVal [] n = (n, None)"
| "parseUintLoop s0 maxVal (c # cs) n =
     (case digitVal c of
        None \<Rightarrow> (0, Some (syntaxError ''ParseUint'' s0))
      | Some d \<Rightarrow>
          if d \<ge> 10 then (0, Some (syntaxError ''ParseUint'' s0))
          else if n \<ge> cutoff10 then (maxVal, Some (rangeError ''ParseUint'' s0))
          else
            let n' = (n * 10) mod 2 ^ 64;
                n1 = (n' + d) mod 2 ^ 64
            in if n1 < n' \<or> n1 > maxVal then (maxVal, Some (rangeError ''ParseUint'' s0))
               else parseUintLoop s0 maxVal cs n1)"

text \<open>\<open>strconv.FormatUint(n, 10)\<close> and \<open>strconv.FormatInt(n, 10)\<close>: the decimal rendering.\<close>

definition digitChar :: "int \<Rightarrow> char" where
  "digitChar d = char_of (48 + d)"

function FormatUint :: "int \<Rightarrow> string" where
  "FormatUint n = (if n < 10 then [digitChar n] else FormatUint (n div 10) @ [digitChar (n mod 10)])"
  by pat_completeness auto
termination
  by (relation "measure nat") auto

declare FormatUint.simps [simp del]

definition FormatInt :: "int \<Rightarrow> string" where
  "FormatInt i = (if i < 0 then CHR ''-'' # FormatUint (- i) else FormatUint i)"

text \<open>
  \<open>bits.UintSize\<close> and \<open>strconv.IntSize\<close>: the width of \<open>int\<close> and \<open>uint\<close>, 32 or 64 by
  platform. The 64-bit value is taken; the lemmas on the parsers are stated for every width.
\<close>

definition UintSize :: nat where
  "UintSize = 64"

definition bitSizeError :: "string \<Rightarrow> string \<Rightarrow> nat \<Rightarrow> error" where
  "bitSizeError fn str bitSize =
     NumError fn str (errorString (''invalid bit size '' @ FormatInt (int bitSize)))"

definition ParseUint :: "string \<Rightarrow> nat \<Rightarrow> int \<times> error option" where
  "ParseUint s bitSize =
     (if s = [] then (0, Some (syntaxError ''ParseUint'' s))
      else
        let bitSize' = (if bitSize = 0 then UintSize else bitSize)
        in if bitSize' > 64 then (0, Some (bitSizeError ''ParseUint'' s bitSize'))
           else parseUintLoop s (2 ^ bitSize' - 1) s 0)"

text \<open>
  \<open>ParseInt\<close> goes on after a range error of \<open>ParseUint\<close> (which then returned the largest
  value of the width) and reports every other error at once, under its own name. \<open>intRange\<close>
  is the rest of its body, from the cutoff on. \<open>ParseUint\<close> returns nothing but a
  \<open>*NumError\<close>, the only error the type assertion of \<open>ParseInt\<close> accepts.
\<close>

definition intRange :: "string \<Rightarrow> nat \<Rightarrow> bool \<Rightarrow> int \<Rightarrow> int \<times> error option" where
  "intRange s0 bitSize neg un =
     (let bitSize' = (if bitSize = 0 then UintSize else bitSize);
          cutoff = 2 ^ (bitSize' - 1)
      in if \<not> neg \<and> un \<ge> cutoff then (cutoff - 1, Some (rangeError ''ParseInt'' s0))
         else if neg \<and> un > cutoff then (- cutoff, Some (rangeError ''ParseInt'' s0))
         else (if neg then - un else un, None))"

definition ParseInt :: "string \<Rightarrow> nat \<Rightarrow> int \<times> error option" where
  "ParseInt s0 bitSize =
     (if s0 = [] then (0, Some (syntaxError ''ParseInt'' s0))
      else
        let neg = (hd s0 = CHR ''-'');
            s = (if hd s0 = CHR ''+'' \<or> hd s0 = CHR ''-'' then tl s0 else s0);
            (un, err) = ParseUint s bitSize
        in case err of
             None \<Rightarrow> intRange s0 bitSize neg un
           | Some (NumError fn num e) \<Rightarrow>
               if e \<noteq> ErrRange then (0, Some (NumError ''ParseInt'' s0 e))
               else intRange s0 bitSize neg un
           | Some e \<Rightarrow> (0, Some e))"

definition ParseBool :: "string \<Rightarrow> bool \<times> error option" where
  "ParseBool str =
     (if str \<in> set [''1'', ''t'', ''T'', ''true'', ''TRUE'', ''True''] then (True, None)
      else if str \<in> set [''0'', ''f'', ''F'', ''false'', ''FALSE'', ''False''] then (False, None)
      else (False, Some (syntaxError ''ParseBool'' str)))"

section \<open>Types and values\<close>

text \<open>
  A \<open>reflect.Type\<close>, as far as \<open>setValue\<close> looks at it: its kind, its element type, and
  whether it is one of the two named types the code asks for (\<open>time.Duration\<close>, of kind
  \<open>Int64\<close>, and \<open>time.Time\<close>, of kind \<open>Struct\<close>). Any other named type behaves as its
  underlying type. \<open>TUnsupported k\<close> is a type of one of the kinds the switch does not list
  (\<open>chan\<close>, \<open>func\<close>, \<open>map\<close>, ...), \<open>k\<close> the name of the kind. A struct field has its name,
  its tag (the key/value pairs that \<open>StructTag.Lookup\<close> finds), whether it is exported,
  and its type.
\<close>

datatype ty =
    TPtr ty
  | TSlice ty
  | TString
  | TInt | TInt8 | TInt16 | TInt32 | TInt64
  | TDuration
  | TUint | TUint8 | TUint16 | TUint32 | TUint64
  | TBool
  | TFloat32 | TFloat64
  | TTime
  | TStruct "field list"
  | TUnsupported string
and field =
    StructField (fName: string) (fTag: "(string \<times> string) list") (fExported: bool) (fType: ty)

text \<open>
  Values. A pointer is \<open>nil\<close> or the address of a heap cell; a slice is \<open>nil\<close> or its
  elements; floats and timestamps are values of a type \<open>'o\<close> that only the library
  functions producing them know.
\<close>

datatype 'o val =
    VPtr "nat option"
  | VSlice "'o val list option"
  | VString string
  | VInt int
  | VUint int
  | VBool bool
  | VFloat 'o
  | VTime 'o
  | VStruct "'o val list"
  | VOther

text \<open>The heap: cell \<open>a\<close> is \<open>h ! a\<close>; \<open>reflect.New\<close> appends a cell.\<close>

type_synonym 'o heap = "'o val list"

section \<open>Library functions taken as they are\<close>

text \<open>
  The standard-library functions whose results the code passes on without looking into
  them: \<open>strconv.ParseFloat\<close>, \<open>time.Parse\<close> with the RFC 3339 layout, \<open>json.Unmarshal\<close>
  into a fresh value of a struct type (the cells it may allocate inside that value are not
  followed), the zero float and timestamp, the float arithmetic of the fractional part of
  a duration (\<open>uint64(float64(f) * (float64(unit) / scale))\<close>, \<open>scale\<close> being ten to the
  number of digits counted) and the quoting of a string in the messages of the \<open>time\<close>
  package.
\<close>

record 'o stdlib =
  ParseFloat :: "string \<Rightarrow> nat \<Rightarrow> error + 'o"
  timeParse :: "string \<Rightarrow> error + 'o"
  jsonUnmarshal :: "ty \<Rightarrow> string \<Rightarrow> error + 'o val"
  zeroFloat :: 'o
  zeroTime :: 'o
  fracNanos :: "int \<Rightarrow> int \<Rightarrow> nat \<Rightarrow> int"
  quote :: "string \<Rightarrow> string"

fun zero :: "'o stdlib \<Rightarrow> ty \<Rightarrow> 'o val"
  and zeroField :: "'o stdlib \<Rightarrow> field \<Rightarrow> 'o val" where
  "zero L (TPtr t) = VPtr None"
| "zero L (TSlice t) = VSlice None"
| "zero L TString = VString []"
| "zero L TBool = VBool False"
| "zero L TFloat32 = VFloat (zeroFloat L)"
| "zero L TFloat64 = VFloat (zeroFloat L)"
| "zero L TTime = VTime (zeroTime L)"
| "zero L (TStruct fs) = VStruct (map (zeroField L) fs)"
| "zero L (TUnsupported k) = VOther"
| "zero L TUint = VUint 0"
| "zero L TUint8 = VUint 0"
| "zero L TUint16 = VUint 0"
| "zero L TUint32 = VUint 0"
| "zero L TUint64 = VUint 0"
| "zero L t = VInt 0"
| "zeroField L (StructField n tg e t) = zero L t"

section \<open>\<open>time.ParseDuration\<close>\<close>

definition isDigit :: "char \<Rightarrow> bool" where
  "isDigit c = (48 \<le> byte c \<and> byte c \<le> 57)"

text \<open>\<open>leadingInt\<close>: the leading digits as a number, and the rest; an error past \<open>1 << 63\<close>.\<close>

fun leadingInt :: "int \<Rightarrow> string \<Rightarrow> (int \<times> string) option" where
  "leadingInt x [] = Some (x, [])"
| "leadingInt x (c # cs) =
     (if \<not> isDigit c then Some (x, c # cs)
      else if x > 2 ^ 63 div 10 then None
      else
        let x' = (x * 10 + byte c - 48) mod 2 ^ 64
        in if x' > 2 ^ 63 then None else leadingInt x' cs)"

text \<open>
  \<open>leadingFraction\<close>: the leading digits as a number, the count of the digits taken (the
  scale is ten to that count), and the rest; digits past the overflow are skipped.
\<close>

fun leadingFraction :: "int \<Rightarrow> nat \<Rightarrow> bool \<Rightarrow> string \<Rightarrow> int \<times> nat \<times> string" where
  "leadingFraction x k overflow [] = (x, k, [])"
| "leadingFraction x k overflow (c # cs) =
     (if \<not> isDigit c then (x, k, c # cs)
      else if overflow then leadingFraction x k overflow cs
      else if x > (2 ^ 63 - 1) div 10 then leadingFraction x k True cs
      else
        let y = (x * 10 + byte c - 48) mod 2 ^ 64
        in if y > 2 ^ 63 then leadingFraction x k True cs
           else leadingFraction y (Suc k) overflow cs)"

definition unitMap :: "string \<Rightarrow> int option" where
  "unitMap u =
     (if u = ''ns'' then Some 1
      else if u = ''us'' then Some 1000
      else if u = [CHR 0xC2, CHR 0xB5, CHR ''s''] then Some 1000
      else if u = [CHR 0xCE, CHR 0xBC, CHR ''s''] then Some 1000
      else if u = ''ms'' then Some 1000000
      else if u = ''s'' then Some 1000000000
      else if u = ''m'' then Some 60000000000
      else if u = ''h'' then Some 3600000000000
      else None)"

definition invalidDuration :: "'o stdlib \<Rightarrow> string \<Rightarrow> error" where
  "invalidDuration L orig = errorString (''time: invalid duration '' @ quote L orig)"

text \<open>Two's complement: the value of the low \<open>bits\<close> bits of \<open>x\<close>, read as signed.\<close>

definition wrapS :: "nat \<Rightarrow> int \<Rightarrow> int" where
  "wrapS bits x = (x + 2 ^ (bits - 1)) mod 2 ^ bits - 2 ^ (bits - 1)"

definition notUnitEnd :: "char \<Rightarrow> bool" where
  "notUnitEnd c = (\<not> (c = CHR ''.'' \<or> isDigit c))"

text \<open>
  One pass of the loop of \<open>ParseDuration\<close> over what is left of the string: digits, an
  optional fraction and a unit, giving the nanoseconds of this part and the rest of the
  string.
\<close>

definition durationStep :: "'o stdlib \<Rightarrow> string \<Rightarrow> string \<Rightarrow> error + int \<times> string" where
  "durationStep L orig s =
     (if \<not> (hd s = CHR ''.'' \<or> isDigit (hd s)) then Inl (invalidDuration L orig)
      else
        case leadingInt 0 s of
          None \<Rightarrow> Inl (invalidDuration L orig)
        | Some (v, s1) \<Rightarrow>
            let pre = (length s \<noteq> length s1);
                (f, k, s2) = (if s1 \<noteq> [] \<and> hd s1 = CHR ''.''
                              then leadingFraction 0 0 False (tl s1) else (0, 0, s1));
                post = (s1 \<noteq> [] \<and> hd s1 = CHR ''.'' \<and> length (tl s1) \<noteq> length s2);
                u = takeWhile notUnitEnd s2;
                s3 = dropWhile notUnitEnd s2
            in if \<not> pre \<and> \<not> post then Inl (invalidDuration L orig)
               else if u = [] then
                 Inl (errorString (''time: missing unit in duration '' @ quote L orig))
               else
                 case unitMap u of
                   None \<Rightarrow>
                     Inl (errorString (''time: unknown unit '' @ quote L u @ '' in duration ''
                            @ quote L orig))
                 | Some unit \<Rightarrow>
                     if v > 2 ^ 63 div unit then Inl (invalidDuration L orig)
                     else
                       let v1 = (v * unit) mod 2 ^ 64;
                           v2 = (if f > 0 then (v1 + fracNanos L f unit k) mod 2 ^ 64 else v1)
                       in if f > 0 \<and> v2 > 2 ^ 63 then Inl (invalidDuration L orig)
                          else Inr (v2, s3))"

text \<open>The loop itself, \<open>d\<close> the nanoseconds so far, each sum checked against \<open>1 << 63\<close>.\<close>

function durationLoop :: "'o stdlib \<Rightarrow> string \<Rightarrow> string \<Rightarrow> int \<Rightarrow> error + int" where
  "durationLoop L orig s d =
     (if s = [] then Inr d
      else
        case durationStep L orig s of
          Inl err \<Rightarrow> Inl err
        | Inr (v, s') \<Rightarrow>
            let d' = (d + v) mod 2 ^ 64
            in if d' > 2 ^ 63 then Inl (invalidDuration L orig)
               else durationLoop L orig s' d')"
  by pat_completeness auto
termination
proof (relation "measure (\<lambda>(L, orig, s, d). length s)")
  show "wf (measure (\<lambda>(L :: 'o stdlib, orig :: string, s :: string, d :: int). length s))"
    by simp
next
  fix L :: "'o stdlib" and orig s s' :: string and d v d' :: int and x
  assume st: "durationStep L orig s = Inr x" and x: "(v, s') = x"
  have LI: "leadingInt a t = Some (b, r) \<Longrightarrow> length r \<le> length t" for a b t r
    by (induction a t rule: leadingInt.induct) (auto simp: Let_def split: if_splits)
  have LF: "leadingFraction a j ov t = (b, j', r) \<Longrightarrow> length r \<le> length t" for a j ov t b j' r
    by (induction a j ov t rule: leadingFraction.induct) (auto simp: Let_def split: if_splits)
  from st x obtain w s1 where li: "leadingInt 0 s = Some (w, s1)"
    by (auto simp: durationStep_def split: if_splits option.splits)
  define F where "F = (if s1 \<noteq> [] \<and> hd s1 = CHR ''.''
                              then leadingFraction 0 0 False (tl s1) else (0, 0, s1))"
  obtain f k s2 where F: "F = (f, k, s2)" by (cases F) auto
  have 1: "length s1 \<le> length s" using LI [OF li] .
  have 2: "length s2 \<le> length s1"
  proof (cases "s1 \<noteq> [] \<and> hd s1 = CHR ''.''")
    case True
    then have "leadingFraction 0 0 False (tl s1) = (f, k, s2)" using F by (simp add: F_def)
    from LF [OF this] show ?thesis by simp
  next
    case False
    then show ?thesis using F by (auto simp: F_def)
  qed
  have 3: "s' = dropWhile notUnitEnd s2 \<and> takeWhile notUnitEnd s2 \<noteq> []"
    using st x li F
    by (auto simp: durationStep_def Let_def F_def [symmetric] split: if_splits option.splits)
  have "length s2 = length (takeWhile notUnitEnd s2) + length (dropWhile notUnitEnd s2)"
    by (metis length_append takeWhile_dropWhile_id)
  then have "length s' < length s2" using 3 by simp
  then show "((L, orig, s', d'), (L, orig, s, d)) \<in> measure (\<lambda>(L, orig, s, d). length s)"
    using 1 2 by simp
qed

declare durationLoop.simps [simp del]

definition ParseDuration :: "'o stdlib \<Rightarrow> string \<Rightarrow> error + int" where
  "ParseDuration L orig =
     (let neg = (orig \<noteq> [] \<and> hd orig = CHR ''-'');
          s = (if orig \<noteq> [] \<and> (hd orig = CHR ''-'' \<or> hd orig = CHR ''+'') then tl orig else orig)
      in if s = ''0'' then Inr 0
         else if s = [] then Inl (invalidDuration L orig)
         else
           case durationLoop L orig s 0 of
             Inl e \<Rightarrow> Inl e
           | Inr d \<Rightarrow>
               if neg then Inr (wrapS 64 (- wrapS 64 d))
               else if d > 2 ^ 63 - 1 then Inl (invalidDuration L orig)
               else Inr d)"

section \<open>\<open>strings.Split(s, "")\<close> and \<open>strings.Join\<close>\<close>

text \<open>
  The first-byte table of \<open>unicode/utf8\<close>: for the first byte of a multi-byte encoding, its
  length and the range of the second byte; nothing for ASCII and for bytes that start
  no encoding.
\<close>

definition first :: "int \<Rightarrow> (nat \<times> int \<times> int) option" where
  "first b =
     (if b < 0xC2 then None
      else if b \<le> 0xDF then Some (2, 0x80, 0xBF)
      else if b = 0xE0 then Some (3, 0xA0, 0xBF)
      else if b \<le> 0xEC then Some (3, 0x80, 0xBF)
      else if b = 0xED then Some (3, 0x80, 0x9F)
      else if b \<le> 0xEF then Some (3, 0x80, 0xBF)
      else if b = 0xF0 then Some (4, 0x90, 0xBF)
      else if b \<le> 0xF3 then Some (4, 0x80, 0xBF)
      else if b = 0xF4 then Some (4, 0x80, 0x8F)
      else None)"

text \<open>The width that \<open>utf8.DecodeRuneInString\<close> reports: 1 for a byte that is not well-formed.\<close>

definition runeLen :: "string \<Rightarrow> nat" where
  "runeLen s =
     (case s of
        [] \<Rightarrow> 0
      | s0 # rest \<Rightarrow>
          (case first (byte s0) of
             None \<Rightarrow> 1
           | Some (sz, lo, hi) \<Rightarrow>
               if length s < sz then 1
               else if byte (s ! 1) < lo \<or> hi < byte (s ! 1) then 1
               else if sz \<le> 2 then 2
               else if byte (s ! 2) < 0x80 \<or> 0xBF < byte (s ! 2) then 1
               else if sz \<le> 3 then 3
               else if byte (s ! 3) < 0x80 \<or> 0xBF < byte (s ! 3) then 1
               else 4))"

text \<open>\<open>explode(s, -1)\<close>: one string per character, a malformed byte on its own.\<close>

fun explode :: "string \<Rightarrow> string list" where
  "explode [] = []"
| "explode (c # cs) =
     (let k = runeLen (c # cs) in take k (c # cs) # explode (drop (k - 1) cs))"

fun Join :: "string list \<Rightarrow> string \<Rightarrow> string" where
  "Join [] sep = []"
| "Join [x] sep = x"
| "Join (x # xs) sep = x @ sep @ Join xs sep"

section \<open>The coercion engine (\<open>handover.go\<close>)\<close>

text \<open>
  A coercion gets the type of the property, the raw strings, the heap and the value the
  property holds, and returns the outcome, the heap and the value the property holds
  afterwards. \<open>values[0]\<close> on an empty slice is Go's index panic.
\<close>

definition indexPanic :: outcome where
  "indexPanic = Panic ''runtime error: index out of range''"

text \<open>
  \<open>reflect.Value.SetInt\<close> and \<open>SetUint\<close> store the low bits that the kind of the property
  has room for.
\<close>

fun kindBits :: "ty \<Rightarrow> nat" where
  "kindBits TInt = UintSize"
| "kindBits TInt8 = 8"
| "kindBits TInt16 = 16"
| "kindBits TInt32 = 32"
| "kindBits TInt64 = 64"
| "kindBits TDuration = 64"
| "kindBits TUint = UintSize"
| "kindBits TUint8 = 8"
| "kindBits TUint16 = 16"
| "kindBits TUint32 = 32"
| "kindBits TUint64 = 64"
| "kindBits t = 0"

definition SetInt :: "ty \<Rightarrow> int \<Rightarrow> 'o val" where
  "SetInt t x = VInt (wrapS (kindBits t) x)"

definition SetUint :: "ty \<Rightarrow> int \<Rightarrow> 'o val" where
  "SetUint t x = VUint (x mod 2 ^ kindBits t)"

definition setStruct ::
  "'o stdlib \<Rightarrow> ty \<Rightarrow> string list \<Rightarrow> 'o heap \<Rightarrow> 'o val \<Rightarrow> outcome \<times> 'o heap \<times> 'o val" where
  "setStruct L t values h v =
     (case values of
        [] \<Rightarrow> (indexPanic, h, v)
      | s # _ \<Rightarrow>
          if t = TTime then
            (case timeParse L s of
               Inl err \<Rightarrow> (Fail err, h, v)
             | Inr tm \<Rightarrow> (OK, h, VTime tm))
          else
            (case jsonUnmarshal L t s of
               Inl err \<Rightarrow> (Fail err, h, v)
             | Inr x \<Rightarrow> (OK, h, x)))"

definition setString ::
  "string list \<Rightarrow> 'o heap \<Rightarrow> 'o val \<Rightarrow> outcome \<times> 'o heap \<times> 'o val" where
  "setString values h v =
     (case values of
        [] \<Rightarrow> (indexPanic, h, v)
      | s # _ \<Rightarrow> (OK, h, VString s))"

definition setInt ::
  "'o stdlib \<Rightarrow> ty \<Rightarrow> string list \<Rightarrow> nat \<Rightarrow> 'o heap \<Rightarrow> 'o val \<Rightarrow> outcome \<times> 'o heap \<times> 'o val" where
  "setInt L t values bitSize h v =
     (case values of
        [] \<Rightarrow> (indexPanic, h, v)
      | s # _ \<Rightarrow>
          if t = TDuration then
            (case ParseDuration L s of
               Inl err \<Rightarrow> (Fail err, h, v)
             | Inr d \<Rightarrow> (OK, h, SetInt t d))
          else
            (case ParseInt s bitSize of
               (n, Some err) \<Rightarrow> (Fail err, h, v)
             | (n, None) \<Rightarrow> (OK, h, SetInt t n)))"

definition setUInt ::
  "ty \<Rightarrow> string list \<Rightarrow> nat \<Rightarrow> 'o heap \<Rightarrow> 'o val \<Rightarrow> outcome \<times> 'o heap \<times> 'o val" where
  "setUInt t values bitSize h v =
     (case values of
        [] \<Rightarrow> (indexPanic, h, v)
      | s # _ \<Rightarrow>
          (case ParseUint s bitSize of
             (ui, Some err) \<Rightarrow> (Fail err, h, v)
           | (ui, None) \<Rightarrow> (OK, h, SetUint t ui)))"

definition setBool ::
  "string list \<Rightarrow> 'o heap \<Rightarrow> 'o val \<Rightarrow> outcome \<times> 'o heap \<times> 'o val" where
  "setBool values h v =
     (case values of
        [] \<Rightarrow> (indexPanic, h, v)
      | s # _ \<Rightarrow>
          (case ParseBool s of
             (b, Some err) \<Rightarrow> (Fail err, h, v)
           | (b, None) \<Rightarrow> (OK, h, VBool b)))"

definition setFloat ::
  "'o stdlib \<Rightarrow> string list \<Rightarrow> nat \<Rightarrow> 'o heap \<Rightarrow> 'o val \<Rightarrow> outcome \<times> 'o heap \<times> 'o val" where
  "setFloat L values bitSize h v =
     (case values of
        [] \<Rightarrow> (indexPanic, h, v)
      | s # _ \<Rightarrow>
          (case ParseFloat L s bitSize of
             Inl err \<Rightarrow> (Fail err, h, v)
           | Inr f \<Rightarrow> (OK, h, VFloat f)))"

text \<open>
  The byte case of \<open>setSlice\<close>: each piece of the split string becomes the decimal string
  of its first byte (\<open>[]byte(c)[0]\<close>, an index panic on an empty piece).
\<close>

fun byteValues :: "string list \<Rightarrow> string list option" where
  "byteValues [] = Some []"
| "byteValues (c # cs) =
     (case c of
        [] \<Rightarrow> None
      | b # _ \<Rightarrow> map_option ((#) (FormatUint (byte b))) (byteValues cs))"

definition unsupportedKind :: "string \<Rightarrow> error" where
  "unsupportedKind k = errorString (''unsupported property kind '' @ [CHR 0x22] @ k @ [CHR 0x22])"

text \<open>
  \<open>setValue\<close> switches on the kind; \<open>setPointer\<close> and \<open>setSlice\<close> get the element type of
  the property. \<open>setPointer\<close> stores the address of a new zero cell in the property before
  it coerces into the cell. \<open>setSliceLoop\<close> is the loop of \<open>setSlice\<close> over the elements of
  the new slice, which is stored in the property after the loop only.
\<close>

function setValue ::
    "'o stdlib \<Rightarrow> ty \<Rightarrow> string list \<Rightarrow> 'o heap \<Rightarrow> 'o val \<Rightarrow> outcome \<times> 'o heap \<times> 'o val"
  and setPointer ::
    "'o stdlib \<Rightarrow> ty \<Rightarrow> string list \<Rightarrow> 'o heap \<Rightarrow> 'o val \<Rightarrow> outcome \<times> 'o heap \<times> 'o val"
  and setSlice ::
    "'o stdlib \<Rightarrow> ty \<Rightarrow> string list \<Rightarrow> 'o heap \<Rightarrow> 'o val \<Rightarrow> outcome \<times> 'o heap \<times> 'o val"
  and setSliceLoop ::
    "'o stdlib \<Rightarrow> ty \<Rightarrow> string list \<Rightarrow> 'o heap \<Rightarrow> outcome \<times> 'o heap \<times> 'o val list"
where
  "setValue L t values h v =
     (case t of
        TPtr t' \<Rightarrow> setPointer L t' values h v
      | TSlice t' \<Rightarrow> setSlice L t' values h v
      | TString \<Rightarrow> setString values h v
      | TInt \<Rightarrow> setInt L t values UintSize h v
      | TInt8 \<Rightarrow> setInt L t values 8 h v
      | TInt16 \<Rightarrow> setInt L t values 16 h v
      | TInt32 \<Rightarrow> setInt L t values 32 h v
      | TInt64 \<Rightarrow> setInt L t values 64 h v
      | TDuration \<Rightarrow> setInt L t values 64 h v
      | TUint \<Rightarrow> setUInt t values UintSize h v
      | TUint8 \<Rightarrow> setUInt t values 8 h v
      | TUint16 \<Rightarrow> setUInt t values 16 h v
      | TUint32 \<Rightarrow> setUInt t values 32 h v
      | TUint64 \<Rightarrow> setUInt t values 64 h v
      | TBool \<Rightarrow> setBool values h v
      | TFloat32 \<Rightarrow> setFloat L values 32 h v
      | TFloat64 \<Rightarrow> setFloat L values 64 h v
      | TTime \<Rightarrow> setStruct L t values h v
      | TStruct fs \<Rightarrow> setStruct L t values h v
      | TUnsupported k \<Rightarrow> (Fail (unsupportedKind k), h, v))"
| "setPointer L t values h v =
     (let a = length h;
          (r, h', v') = setValue L t values (h @ [zero L t]) (zero L t)
      in (r, h'[a := v'], VPtr (Some a)))"
| "setSlice L t values h v =
     (case (if t = TUint8
            then (case values of [] \<Rightarrow> None | s # _ \<Rightarrow> byteValues (explode s))
            else Some values) of
        None \<Rightarrow> (indexPanic, h, v)
      | Some values' \<Rightarrow>
          (case setSliceLoop L t values' h of
             (OK, h', slice) \<Rightarrow> (OK, h', VSlice (Some slice))
           | (r, h', slice) \<Rightarrow> (r, h', v)))"
| "setSliceLoop L t [] h = (OK, h, [])"
| "setSliceLoop L t (s # ss) h =
     (case setValue L t [s] h (zero L t) of
        (OK, h1, v1) \<Rightarrow>
          (case setSliceLoop L t ss h1 of (r, h2, slice) \<Rightarrow> (r, h2, v1 # slice))
      | (r, h1, v1) \<Rightarrow> (r, h1, []))"
  by pat_completeness auto
termination
  by (relation "inv_image (less_than <*lex*> less_than)
        (\<lambda>x. case x of
            Inl (Inl (L, t, values, h, v)) \<Rightarrow> (4 * size t + 1, 0)
          | Inl (Inr (L, t, values, h, v)) \<Rightarrow> (4 * size t + 3, 0)
          | Inr (Inl (L, t, values, h, v)) \<Rightarrow> (4 * size t + 3, 0)
          | Inr (Inr (L, t, values, h)) \<Rightarrow> (4 * size t + 2, length values))") auto

declare setValue.simps [simp del]

section \<open>The structured error (\<open>errors.go\<close>)\<close>

definition newError :: "string \<Rightarrow> string \<Rightarrow> string list \<Rightarrow> error \<Rightarrow> error" where
  "newError field source values err =
     (case err of
        NumError fn num e \<Rightarrow> Error field source num err
      | ParseError layout value msg \<Rightarrow> Error field source value err
      | UnsupportedValueError str \<Rightarrow> Error field source str err
      | _ \<Rightarrow>
          if length values \<le> 0 then Error field source [] err
          else if length values = 1 then Error field source (values ! 0) err
          else Error field source (''['' @ Join values '' '' @ '']'') err)"

section \<open>The population driver (\<open>Sources.To\<close>)\<close>

text \<open>
  A source: its tag name and its resolver, from the lookup key to the \<open>Valuer\<close> (\<open>nil\<close>, or
  its strings) and the error. The resolver is taken to be a function of the key.
\<close>

record Source =
  Tag :: string
  Get :: "string \<Rightarrow> string list option \<times> error option"

text \<open>The argument \<open>obj interface{}\<close>: \<open>nil\<close>, or a value with its dynamic type.\<close>

datatype 'o iface = NilIface | Iface ty "'o val"

text \<open>
  \<open>for valueOf.Kind() == reflect.Ptr { valueOf = valueOf.Elem() }\<close>: the type, the value
  and the address (if it was reached through a pointer) of what the chain of pointers
  ends in; nothing (the zero \<open>reflect.Value\<close>) if the chain ends in a \<open>nil\<close> pointer.
\<close>

fun indirect ::
  "'o heap \<Rightarrow> ty \<Rightarrow> 'o val \<Rightarrow> nat option \<Rightarrow> (ty \<times> 'o val \<times> nat option) option" where
  "indirect h (TPtr t) v loc =
     (case v of
        VPtr (Some a) \<Rightarrow> if a < length h then indirect h t (h ! a) (Some a) else None
      | _ \<Rightarrow> None)"
| "indirect h t v loc = Some (t, v, loc)"

definition notOfItsType :: outcome where
  "notOfItsType = Panic ''reflect: value is not of its type''"

text \<open>
  The body of the inner loop, for field \<open>i\<close> (\<open>f\<close>) and one source. The struct is the cell
  at \<open>loc\<close>; a struct that was not reached through a pointer is not addressable, and none
  of its fields can be set.
\<close>

definition step ::
  "'o stdlib \<Rightarrow> nat option \<Rightarrow> nat \<Rightarrow> field \<Rightarrow> Source \<Rightarrow> 'o heap \<Rightarrow> outcome \<times> 'o heap" where
  "step L loc i f source h =
     (case map_of (fTag f) (Tag source) of
        None \<Rightarrow> (OK, h)
      | Some tagValue \<Rightarrow>
          (case loc of
             None \<Rightarrow> (OK, h)
           | Some a \<Rightarrow>
               if \<not> fExported f then (OK, h)
               else
                 let (v, err) = Get source tagValue;
                     values = (case v of None \<Rightarrow> [] | Some vs \<Rightarrow> vs)
                 in case err of
                      Some e \<Rightarrow> (Fail (newError tagValue (Tag source) values e), h)
                    | None \<Rightarrow>
                        if length values = 0 then (OK, h)
                        else
                          (case h ! a of
                             VStruct flds \<Rightarrow>
                               if i < length flds then
                                 (case setValue L (fType f) values h (flds ! i) of
                                    (r, h', v') \<Rightarrow>
                                      ((case r of
                                          Fail e \<Rightarrow> Fail (newError tagValue (Tag source) values e)
                                        | _ \<Rightarrow> r),
                                       h'[a := VStruct (flds[i := v'])]))
                               else (notOfItsType, h)
                           | _ \<Rightarrow> (notOfItsType, h))))"

fun sourcesLoop ::
  "'o stdlib \<Rightarrow> nat option \<Rightarrow> nat \<Rightarrow> field \<Rightarrow> Source list \<Rightarrow> 'o heap \<Rightarrow> outcome \<times> 'o heap" where
  "sourcesLoop L loc i f [] h = (OK, h)"
| "sourcesLoop L loc i f (source # rest) h =
     (case step L loc i f source h of
        (OK, h') \<Rightarrow> sourcesLoop L loc i f rest h'
      | r \<Rightarrow> r)"

fun fieldsLoop ::
  "'o stdlib \<Rightarrow> nat option \<Rightarrow> nat \<Rightarrow> field list \<Rightarrow> Source list \<Rightarrow> 'o heap \<Rightarrow> outcome \<times> 'o heap" where
  "fieldsLoop L loc i [] sources h = (OK, h)"
| "fieldsLoop L loc i (f # fs) sources h =
     (case sourcesLoop L loc i f sources h of
        (OK, h') \<Rightarrow> fieldsLoop L loc (Suc i) fs sources h'
      | r \<Rightarrow> r)"

definition To :: "'o stdlib \<Rightarrow> Source list \<Rightarrow> 'o iface \<Rightarrow> 'o heap \<Rightarrow> outcome \<times> 'o heap" where
  "To L sources obj h =
     (case obj of
        NilIface \<Rightarrow> (Fail (errorString ''given struct to fill is nil''), h)
      | Iface t v \<Rightarrow>
          if length sources = 0 then (OK, h)
          else
            (case indirect h t v None of
               None \<Rightarrow> (Panic ''reflect: call of reflect.Value.Type on zero Value'', h)
             | Some (t', v', loc) \<Rightarrow>
                 (case t' of
                    TStruct fs \<Rightarrow> fieldsLoop L loc 0 fs sources h
                  | TTime \<Rightarrow> (OK, h)
                  | _ \<Rightarrow> (Panic ''reflect: call of reflect.Value.NumField on a non-struct Value'', h))))"

section \<open>Fixtures\<close>

text \<open>
  A library for the concrete instances: its float, timestamp and JSON parsers reject every
  input, and it quotes a string by putting it between double quotes.
\<close>

definition rejectLib :: "unit stdlib" where
  "rejectLib =
     \<lparr> ParseFloat = (\<lambda>s bitSize. Inl (syntaxError ''ParseFloat'' s)),
       timeParse = (\<lambda>s. Inl (ParseError ''2006-01-02T15:04:05Z07:00'' s '''')),
       jsonUnmarshal = (\<lambda>t s. Inl (errorString ''invalid character'')),
       zeroFloat = (),
       zeroTime = (),
       fracNanos = (\<lambda>f unit k. 0),
       quote = (\<lambda>s. [CHR 0x22] @ s @ [CHR 0x22]) \<rparr>"

text \<open>The plain integer types, signed and unsigned (\<open>time.Duration\<close> is not one of them).\<close>

definition signedTypes :: "ty list" where
  "signedTypes = [TInt, TInt8, TInt16, TInt32, TInt64]"

definition unsignedTypes :: "ty list" where
  "unsignedTypes = [TUint, TUint8, TUint16, TUint32, TUint64]"

text \<open>
  A source with tag \<open>foo\<close> that resolves every key to the same strings, and the struct of
  one exported slice-of-int field tagged \<open>foo:"bar"\<close> that the tests use.
\<close>

definition fooSource :: "string list \<Rightarrow> Source" where
  "fooSource vs = \<lparr> Tag = ''foo'', Get = (\<lambda>key. (Some vs, None)) \<rparr>"

definition sliceStruct :: "field list" where
  "sliceStruct = [StructField ''Slice'' [(''foo'', ''bar'')] True (TSlice TInt)]"

text \<open>\<open>extends h h'\<close>: the heap \<open>h'\<close> has every cell of \<open>h\<close>, with the value it had.\<close>

definition extends :: "'a list \<Rightarrow> 'a list \<Rightarrow> bool" where
  "extends h h' = (length h \<le> length h' \<and> take (length h) h' = h)"






section \<open>The order of the field/source combinations\<close>





section \<open>Decimal strings and the integer parsers\<close>

lemma byte_digitChar: "0 \<le> d \<Longrightarrow> d < 10 \<Longrightarrow> byte (digitChar d) = 48 + d"
  by (simp add: byte_def digitChar_def)

lemma digitVal_digitChar: "0 \<le> d \<Longrightarrow> d < 10 \<Longrightarrow> digitVal (digitChar d) = Some d"
  by (simp add: digitVal_def byte_digitChar)

lemma parseUintLoop_digit_unfold:
  assumes "0 \<le> d" "d < 10"
  shows "parseUintLoop s0 M [digitChar d] q =
     (if q \<ge> cutoff10 then (M, Some (rangeError ''ParseUint'' s0))
      else if (q * 10 mod 2 ^ 64 + d) mod 2 ^ 64 < q * 10 mod 2 ^ 64 \<or> (q * 10 mod 2 ^ 64 + d) mod 2 ^ 64 > M
           then (M, Some (rangeError ''ParseUint'' s0))
           else ((q * 10 mod 2 ^ 64 + d) mod 2 ^ 64, None))"
  using assms by (simp add: digitVal_digitChar Let_def)

lemma parseUintLoop_digit:
  assumes "0 \<le> d" "d < 10" "0 \<le> q" "M < 2 ^ 64"
  shows "parseUintLoop s0 M [digitChar d] q =
     (if q * 10 + d \<le> M then (q * 10 + d, None) else (M, Some (rangeError ''ParseUint'' s0)))"
proof (cases "q \<ge> cutoff10")
  case True
  then have "q * 10 + d > M" using assms by (simp add: cutoff10_def)
  then show ?thesis
    unfolding parseUintLoop_digit_unfold [OF assms(1,2)] using True by simp
next
  case False
  then have q: "q * 10 < 2 ^ 64" by (simp add: cutoff10_def)
  then have q': "(q * 10) mod 2 ^ 64 = q * 10" using assms by simp
  show ?thesis
  proof (cases "q * 10 + d < 2 ^ 64")
    case True
    then have m: "(q * 10 + d) mod 2 ^ 64 = q * 10 + d" using assms by simp
    show ?thesis
      unfolding parseUintLoop_digit_unfold [OF assms(1,2)] q' m
      using False assms by auto
  next
    case F2: False
    have lt: "q * 10 + d - 2 ^ 64 < 2 ^ 64" using q assms by simp
    have ge: "0 \<le> q * 10 + d - 2 ^ 64" using F2 by simp
    have "(q * 10 + d - 2 ^ 64) mod 2 ^ 64 = q * 10 + d - 2 ^ 64"
      using ge lt by (rule mod_pos_pos_trivial)
    then have m: "(q * 10 + d) mod 2 ^ 64 = q * 10 + d - 2 ^ 64"
      by (simp only: minus_mod_self2)
    have "q * 10 + d > M" using F2 assms by simp
    then show ?thesis
      unfolding parseUintLoop_digit_unfold [OF assms(1,2)] q' m
      using False assms by auto
  qed
qed


lemma parseUintLoop_append:
  "parseUintLoop s0 M (xs @ ys) n =
     (case parseUintLoop s0 M xs n of (n', None) \<Rightarrow> parseUintLoop s0 M ys n' | r \<Rightarrow> r)"
  by (induction xs arbitrary: n) (auto simp: Let_def split: option.splits)

lemma parseUintLoop_FormatUint:
  "0 \<le> n \<Longrightarrow> M < 2 ^ 64 \<Longrightarrow> parseUintLoop s0 M (FormatUint n) 0 =
     (if n \<le> M then (n, None) else (M, Some (rangeError ''ParseUint'' s0)))"
proof (induction n rule: FormatUint.induct)
  case (1 n)
  show ?case
  proof (cases "n < 10")
    case True
    then show ?thesis using parseUintLoop_digit [of n 0 M s0] 1(2,3)
      by (subst FormatUint.simps) simp
  next
    case False
    have d: "0 \<le> n mod 10" "n mod 10 < 10" by simp_all
    have q: "0 \<le> n div 10" using 1(2) by simp
    have n: "n div 10 * 10 + n mod 10 = n" by simp
    have le: "n div 10 \<le> n" using 1(2) n by presburger
    have F: "FormatUint n = FormatUint (n div 10) @ [digitChar (n mod 10)]"
      using False by (subst FormatUint.simps) simp
    show ?thesis
      unfolding F parseUintLoop_append 1(1) [OF False q 1(3)]
      using parseUintLoop_digit [OF d q 1(3), of s0] le n
      by (auto simp del: FormatUint.simps parseUintLoop.simps)
  qed
qed

lemma FormatUint_small: "n < 10 \<Longrightarrow> FormatUint n = [digitChar n]"
  by (subst FormatUint.simps) simp

lemma FormatUint_big:
  "\<not> n < 10 \<Longrightarrow> FormatUint n = FormatUint (n div 10) @ [digitChar (n mod 10)]"
  by (subst FormatUint.simps) simp

lemma FormatUint_hd:
  "0 \<le> n \<Longrightarrow> FormatUint n \<noteq> [] \<and> (\<exists>d. 0 \<le> d \<and> d < 10 \<and> hd (FormatUint n) = digitChar d)"
proof (induction n rule: FormatUint.induct)
  case (1 n)
  show ?case
  proof (cases "n < 10")
    case True
    then show ?thesis using 1(2) by (auto simp: FormatUint_small)
  next
    case False
    have q: "0 \<le> n div 10" using 1(2) by simp
    show ?thesis using 1(1) [OF False q] by (auto simp: FormatUint_big [OF False])
  qed
qed

lemma FormatUint_nonempty: "0 \<le> n \<Longrightarrow> FormatUint n \<noteq> []"
  using FormatUint_hd by blast

lemma FormatUint_hd_sign:
  assumes "0 \<le> n"
  shows "hd (FormatUint n) \<noteq> CHR ''-''" "hd (FormatUint n) \<noteq> CHR ''+''"
proof -
  obtain d where d: "0 \<le> d" "d < 10" "hd (FormatUint n) = digitChar d"
    using FormatUint_hd [OF assms] by blast
  have "byte (hd (FormatUint n)) = 48 + d" using d byte_digitChar by simp
  then have b: "byte (hd (FormatUint n)) \<ge> 48" using d by simp
  have "byte (CHR ''-'') = 45" "byte (CHR ''+'') = 43" by (simp_all add: byte_def)
  then show "hd (FormatUint n) \<noteq> CHR ''-''" "hd (FormatUint n) \<noteq> CHR ''+''"
    using b by auto
qed

lemma ParseUint_FormatUint:
  assumes "0 \<le> n" "0 < bits" "bits \<le> 64"
  shows "ParseUint (FormatUint n) bits =
     (if n < 2 ^ bits then (n, None)
      else (2 ^ bits - 1, Some (rangeError ''ParseUint'' (FormatUint n))))"
proof -
  have "(2::int) ^ bits \<le> 2 ^ 64" using assms(3) by (rule power_increasing) simp
  then have M: "(2::int) ^ bits - 1 < 2 ^ 64" by linarith
  have "ParseUint (FormatUint n) bits = parseUintLoop (FormatUint n) (2 ^ bits - 1) (FormatUint n) 0"
    using assms FormatUint_nonempty [OF assms(1)] by (simp add: ParseUint_def Let_def)
  also have "\<dots> = (if n \<le> 2 ^ bits - 1 then (n, None)
      else (2 ^ bits - 1, Some (rangeError ''ParseUint'' (FormatUint n))))"
    by (rule parseUintLoop_FormatUint [OF assms(1) M])
  finally show ?thesis by auto
qed

lemma intRange_eq:
  assumes "2 \<le> bits"
  shows "intRange s0 bits neg un =
     (if \<not> neg \<and> un \<ge> 2 ^ (bits - 1) then (2 ^ (bits - 1) - 1, Some (rangeError ''ParseInt'' s0))
      else if neg \<and> un > 2 ^ (bits - 1) then (- (2 ^ (bits - 1)), Some (rangeError ''ParseInt'' s0))
      else (if neg then - un else un, None))"
  using assms by (simp add: intRange_def Let_def)

lemma ParseInt_neg:
  assumes "ParseUint s bits = (un, err)"
  shows "ParseInt (CHR ''-'' # s) bits =
     (case err of
        None \<Rightarrow> intRange (CHR ''-'' # s) bits True un
      | Some (NumError fn num e) \<Rightarrow>
          if e \<noteq> ErrRange then (0, Some (NumError ''ParseInt'' (CHR ''-'' # s) e))
          else intRange (CHR ''-'' # s) bits True un
      | Some e \<Rightarrow> (0, Some e))"
  using assms by (simp add: ParseInt_def)

lemma ParseInt_pos:
  assumes "ParseUint s bits = (un, err)" "s \<noteq> []" "hd s \<noteq> CHR ''-''" "hd s \<noteq> CHR ''+''"
  shows "ParseInt s bits =
     (case err of
        None \<Rightarrow> intRange s bits False un
      | Some (NumError fn num e) \<Rightarrow>
          if e \<noteq> ErrRange then (0, Some (NumError ''ParseInt'' s e))
          else intRange s bits False un
      | Some e \<Rightarrow> (0, Some e))"
  using assms by (simp add: ParseInt_def)

lemma ParseInt_FormatInt:
  assumes "2 \<le> bits" "bits \<le> 64"
  shows "ParseInt (FormatInt i) bits =
     (if - (2 ^ (bits - 1)) \<le> i \<and> i < 2 ^ (bits - 1) then (i, None)
      else (if i < 0 then - (2 ^ (bits - 1)) else 2 ^ (bits - 1) - 1,
            Some (rangeError ''ParseInt'' (FormatInt i))))"
proof -
  obtain k where k: "bits = Suc (Suc k)" using assms(1)
    by (metis Suc_le_D numeral_2_eq_2 Suc_le_mono)
  have p: "(2::int) ^ bits = 2 * 2 ^ (bits - 1)" "(2::int) ^ (bits - 1) \<ge> 2"
    using k by (simp_all add: self_le_power)
  have b0: "0 < bits" using assms by simp
  show ?thesis
  proof (cases "i < 0")
    case True
    then have n: "0 \<le> - i" by simp
    have F: "FormatInt i = CHR ''-'' # FormatUint (- i)" using True by (simp add: FormatInt_def)
    show ?thesis
    proof (cases "- i < 2 ^ bits")
      case T2: True
      then have U: "ParseUint (FormatUint (- i)) bits = (- i, None)"
        using ParseUint_FormatUint [OF n b0 assms(2)] by simp
      show ?thesis
        unfolding F ParseInt_neg [OF U] intRange_eq [OF assms(1)]
        using True p by auto
    next
      case F2: False
      then have U: "ParseUint (FormatUint (- i)) bits =
          (2 ^ bits - 1, Some (NumError ''ParseUint'' (FormatUint (- i)) ErrRange))"
        using ParseUint_FormatUint [OF n b0 assms(2)] by (simp add: rangeError_def)
      show ?thesis
        unfolding F ParseInt_neg [OF U] intRange_eq [OF assms(1)]
        using True F2 p by auto
    qed
  next
    case False
    then have n: "0 \<le> i" by simp
    have F: "FormatInt i = FormatUint i" using False by (simp add: FormatInt_def)
    note ne = FormatUint_nonempty [OF n] FormatUint_hd_sign [OF n]
    show ?thesis
    proof (cases "i < 2 ^ bits")
      case T2: True
      then have U: "ParseUint (FormatUint i) bits = (i, None)"
        using ParseUint_FormatUint [OF n b0 assms(2)] by simp
      show ?thesis
        unfolding F ParseInt_pos [OF U ne] intRange_eq [OF assms(1)]
        using False p by auto
    next
      case F2: False
      then have U: "ParseUint (FormatUint i) bits =
          (2 ^ bits - 1, Some (NumError ''ParseUint'' (FormatUint i) ErrRange))"
        using ParseUint_FormatUint [OF n b0 assms(2)] by (simp add: rangeError_def)
      show ?thesis
        unfolding F ParseInt_pos [OF U ne] intRange_eq [OF assms(1)]
        using False F2 p by auto
    qed
  qed
qed

lemma wrapS_id:
  assumes "0 < bits" "- (2 ^ (bits - 1)) \<le> x" "x < 2 ^ (bits - 1)"
  shows "wrapS bits x = x"
proof -
  obtain k where k: "bits = Suc k" using assms(1) by (cases bits) auto
  have "0 \<le> x + 2 ^ k" "x + 2 ^ k < 2 ^ bits" using assms(2,3) k by simp_all
  then have "(x + 2 ^ k) mod 2 ^ bits = x + 2 ^ k" by (rule mod_pos_pos_trivial)
  then show ?thesis using k by (simp add: wrapS_def)
qed

lemma kindBits_signed: "t \<in> set signedTypes \<Longrightarrow> 2 \<le> kindBits t \<and> kindBits t \<le> 64 \<and> t \<noteq> TDuration"
  by (auto simp: signedTypes_def UintSize_def)

lemma kindBits_unsigned: "t \<in> set unsignedTypes \<Longrightarrow> 2 \<le> kindBits t \<and> kindBits t \<le> 64"
  by (auto simp: unsignedTypes_def UintSize_def)

lemma setValue_signed:
  "t \<in> set signedTypes \<Longrightarrow> setValue L t values h v = setInt L t values (kindBits t) h v"
  by (auto simp: signedTypes_def setValue.simps)

lemma setValue_unsigned:
  "t \<in> set unsignedTypes \<Longrightarrow> setValue L t values h v = setUInt t values (kindBits t) h v"
  by (auto simp: unsignedTypes_def setValue.simps)

lemma setInt_FormatInt:
  assumes "t \<in> set signedTypes"
  shows "setValue L t (FormatInt n # rest) h v =
     (if - (2 ^ (kindBits t - 1)) \<le> n \<and> n < 2 ^ (kindBits t - 1) then (OK, h, VInt n)
      else (Fail (rangeError ''ParseInt'' (FormatInt n)), h, v))"
proof -
  note b = kindBits_signed [OF assms]
  have b2: "2 \<le> kindBits t" and b64: "kindBits t \<le> 64" and nd: "t \<noteq> TDuration" using b by auto
  have b0: "0 < kindBits t" using b2 by simp
  show ?thesis
    unfolding setValue_signed [OF assms] setInt_def
    using nd wrapS_id [OF b0, of n]
    by (simp add: ParseInt_FormatInt [OF b2 b64] SetInt_def)
qed

lemma setUInt_FormatUint:
  assumes "t \<in> set unsignedTypes" "0 \<le> n"
  shows "setValue L t (FormatInt n # rest) h v =
     (if n < 2 ^ kindBits t then (OK, h, VUint n)
      else (Fail (rangeError ''ParseUint'' (FormatInt n)), h, v))"
proof -
  note b = kindBits_unsigned [OF assms(1)]
  have b0: "0 < kindBits t" and b64: "kindBits t \<le> 64" using b by auto
  have F: "FormatInt n = FormatUint n" using assms(2) by (simp add: FormatInt_def)
  have m: "n < 2 ^ kindBits t \<Longrightarrow> n mod 2 ^ kindBits t = n"
    using assms(2) by simp
  show ?thesis
    unfolding setValue_unsigned [OF assms(1)] setUInt_def F
    using m by (simp add: ParseUint_FormatUint [OF assms(2) b0 b64] SetUint_def)
qed

section \<open>The heap only grows\<close>

lemma extends_refl: "extends h h"
  by (simp add: extends_def)

lemma extends_trans: "extends h1 h2 \<Longrightarrow> extends h2 h3 \<Longrightarrow> extends h1 h3"
proof -
  assume a: "extends h1 h2" and b: "extends h2 h3"
  have "take (length h1) h3 = take (length h1) (take (length h2) h3)"
    using a by (simp add: extends_def min_def)
  also have "\<dots> = h1" using a b by (simp add: extends_def)
  finally show ?thesis using a b by (simp add: extends_def)
qed

lemma extends_alloc:
  assumes "extends (h @ [z]) h'"
  shows "extends h (h'[length h := x])"
proof -
  have l: "length h < length h'" using assms by (simp add: extends_def)
  have "take (length h) h' = take (length h) (take (length (h @ [z])) h')"
    by (simp add: min_def)
  also have "\<dots> = h" using assms by (simp add: extends_def)
  finally show ?thesis using l by (simp add: extends_def)
qed

lemma scalar_heap:
  "setString values h v = (r, h', v') \<Longrightarrow> h' = h"
  "setInt L t values b h v = (r, h', v') \<Longrightarrow> h' = h"
  "setUInt t values b h v = (r, h', v') \<Longrightarrow> h' = h"
  "setBool values h v = (r, h', v') \<Longrightarrow> h' = h"
  "setFloat L values b h v = (r, h', v') \<Longrightarrow> h' = h"
  "setStruct L t values h v = (r, h', v') \<Longrightarrow> h' = h"
  by (auto simp: setString_def setInt_def setUInt_def setBool_def setFloat_def setStruct_def
      split: list.splits sum.splits prod.splits option.splits if_splits)


lemma heap_extends:
  "(\<forall>r h' v'. setValue L t vals h v = (r, h', v') \<longrightarrow> extends h h')"
  "(\<forall>r h' v'. setPointer L t vals h v = (r, h', v') \<longrightarrow> extends h h')"
  "(\<forall>r h' v'. setSlice L t vals h v = (r, h', v') \<longrightarrow> extends h h')"
  "(\<forall>r h' vs. setSliceLoop L t vals h = (r, h', vs) \<longrightarrow> extends h h')"
proof (induction L t vals h v and L t vals h v and L t vals h v and L t vals h
    rule: setValue_setPointer_setSlice_setSliceLoop.induct)
  case (1 L t vals h v)
  show ?case
  proof (intro allI impI)
    fix r h' v' assume a: "setValue L t vals h v = (r, h', v')"
    show "extends h h'"
    proof (cases t)
      case (TPtr t')
      then show ?thesis using a 1(1) by (simp add: setValue.simps)
    next
      case (TSlice t')
      then show ?thesis using a 1(2) by (simp add: setValue.simps)
    qed (use a in \<open>auto simp: setValue.simps extends_refl dest!: scalar_heap\<close>)
  qed
next
  case (2 L t vals h v)
  show ?case
  proof (intro allI impI)
    fix r h' v' assume a: "setPointer L t vals h v = (r, h', v')"
    obtain r1 h1 v1 where s: "setValue L t vals (h @ [zero L t]) (zero L t) = (r1, h1, v1)"
      by (metis prod_cases3)
    then have "extends (h @ [zero L t]) h1" using 2 by blast
    then have "extends h (h1[length h := v1])" by (rule extends_alloc)
    then show "extends h h'" using a s by (simp add: Let_def)
  qed
next
  case (3 L t vals h v)
  show ?case
  proof (intro allI impI)
    fix r h' v' assume a: "setSlice L t vals h v = (r, h', v')"
    define X where "X = (if t = TUint8
            then (case vals of [] \<Rightarrow> None | s # _ \<Rightarrow> byteValues (explode s))
            else Some vals)"
    show "extends h h'"
    proof (cases X)
      case None
      then show ?thesis using a by (simp add: X_def [symmetric] extends_refl)
    next
      case (Some vs)
      obtain r1 h1 sl where s: "setSliceLoop L t vs h = (r1, h1, sl)" by (metis prod_cases3)
      have "extends h h1" using 3 [of vs] Some s unfolding X_def by blast
      moreover have "h' = h1" using a Some s by (cases r1) (simp_all add: X_def [symmetric])
      ultimately show ?thesis by simp
    qed
  qed
next
  case (4 L t h)
  then show ?case by (simp add: extends_refl)
next
  case (5 L t s ss h)
  show ?case
  proof (intro allI impI)
    fix r h' vs assume a: "setSliceLoop L t (s # ss) h = (r, h', vs)"
    obtain r1 h1 v1 where s: "setValue L t [s] h (zero L t) = (r1, h1, v1)"
      by (metis prod_cases3)
    then have e1: "extends h h1" using 5(1) by blast
    show "extends h h'"
    proof (cases r1)
      case OK
      obtain r2 h2 vs2 where s2: "setSliceLoop L t ss h1 = (r2, h2, vs2)" by (metis prod_cases3)
      then have "extends h1 h2" using 5(2) [of r1 "(h1, v1)" h1 v1] s OK by simp
      then show ?thesis using a s s2 OK e1 by (auto intro: extends_trans)
    qed (use a s e1 in auto)
  qed
qed

section \<open>Failing coercions of scalars\<close>

lemma setInt_error:
  "t \<noteq> TDuration \<Longrightarrow> snd (ParseInt s b) = Some e \<Longrightarrow> setInt L t (s # rest) b h v = (Fail e, h, v)"
  by (cases "ParseInt s b") (simp add: setInt_def)

lemma setUInt_error:
  "snd (ParseUint s b) = Some e \<Longrightarrow> setUInt t (s # rest) b h v = (Fail e, h, v)"
  by (cases "ParseUint s b") (simp add: setUInt_def)

lemma setBool_error:
  "snd (ParseBool s) = Some e \<Longrightarrow> setValue L TBool (s # rest) h v = (Fail e, h, v)"
  by (cases "ParseBool s") (simp add: setValue.simps setBool_def)

lemma setFloat_error:
  "ParseFloat L s 32 = Inl e \<Longrightarrow> setValue L TFloat32 (s # rest) h v = (Fail e, h, v)"
  "ParseFloat L s 64 = Inl e \<Longrightarrow> setValue L TFloat64 (s # rest) h v = (Fail e, h, v)"
  by (simp_all add: setValue.simps setFloat_def)

lemma setDuration_error:
  "ParseDuration L s = Inl e \<Longrightarrow> setValue L TDuration (s # rest) h v = (Fail e, h, v)"
  by (simp add: setValue.simps setInt_def)

section \<open>The driver and the structured error\<close>

text \<open>
  A \<open>nil\<close> pointer inside a non-\<open>nil\<close> interface value is not what the first check of \<open>To\<close>
  looks for: with a source to process, \<open>valueOf.Type()\<close> is called on the zero
  \<open>reflect.Value\<close> and panics.
\<close>

lemma To_nil_pointer_panics:
  "sources \<noteq> [] \<Longrightarrow> To L sources (Iface (TPtr t) (VPtr None)) h =
     (Panic ''reflect: call of reflect.Value.Type on zero Value'', h)"
  by (simp add: To_def)

section \<open>Durations\<close>

lemma durationLoop_range:
  "durationLoop L orig s d = Inr r \<Longrightarrow> 0 \<le> d \<Longrightarrow> d \<le> 2 ^ 63 \<Longrightarrow> 0 \<le> r \<and> r \<le> 2 ^ 63"
proof (induction L orig s d arbitrary: r rule: durationLoop.induct)
  case (1 L orig s d)
  show ?case
  proof (cases "s = []")
    case True
    then show ?thesis using "1.prems" by (simp add: durationLoop.simps)
  next
    case False
    from "1.prems"(1) False obtain v s' where st: "durationStep L orig s = Inr (v, s')"
      by (subst (asm) durationLoop.simps) (auto split: sum.splits)
    define d' where "d' = (d + v) mod 2 ^ 64"
    have c: "\<not> d' > 2 ^ 63" and rec: "durationLoop L orig s' d' = Inr r"
      using "1.prems"(1) False st
      by (subst (asm) durationLoop.simps; simp add: Let_def d'_def split: if_splits)+
    have p: "0 \<le> d'" by (simp add: d'_def)
    show ?thesis
      using "1.IH" [OF False st refl d'_def c rec p] c by simp
  qed
qed

lemma wrapS_range: "0 < bits \<Longrightarrow> - (2 ^ (bits - 1)) \<le> wrapS bits x \<and> wrapS bits x < 2 ^ (bits - 1)"
proof -
  assume "0 < bits"
  then obtain k where k: "bits = Suc k" by (cases bits) auto
  have "0 \<le> (x + 2 ^ k) mod 2 ^ bits" "(x + 2 ^ k) mod 2 ^ bits < 2 ^ bits" by simp_all
  then show ?thesis using k by (simp add: wrapS_def)
qed

lemma ParseDuration_range:
  assumes "ParseDuration L s = Inr d"
  shows "- (2 ^ 63) \<le> d \<and> d < 2 ^ 63"
proof -
  define s' where "s' = (if s \<noteq> [] \<and> (hd s = CHR ''-'' \<or> hd s = CHR ''+'') then tl s else s)"
  show ?thesis
  proof (cases "s' = ''0'' \<or> s' = []")
    case True
    then show ?thesis using assms by (auto simp: ParseDuration_def Let_def s'_def [symmetric])
  next
    case False
    then obtain r where r: "durationLoop L s s' 0 = Inr r"
      using assms by (auto simp: ParseDuration_def Let_def s'_def [symmetric] split: sum.splits)
    have rr: "0 \<le> r \<and> r \<le> 2 ^ 63" using durationLoop_range [OF r] by simp
    show ?thesis
    proof (cases "s \<noteq> [] \<and> hd s = CHR ''-''")
      case True
      then have e: "s' = tl s" by (simp add: s'_def)
      have "d = wrapS 64 (- wrapS 64 r)"
        using assms False r True unfolding e by (auto simp: ParseDuration_def Let_def)
      then show ?thesis using wrapS_range [of 64 "- wrapS 64 r"] by simp
    next
      case F2: False
      have "d = r \<and> \<not> r > 2 ^ 63 - 1"
      proof (cases "s \<noteq> [] \<and> hd s = CHR ''+''")
        case True
        then have e: "s' = tl s" by (simp add: s'_def)
        show ?thesis
          using assms False r True F2 unfolding e
          by (auto simp: ParseDuration_def Let_def split: if_splits)
      next
        case F3: False
        then have e: "s' = s" using F2 by (auto simp add: s'_def)
        show ?thesis
          using assms False r F3 F2 unfolding e
          by (auto simp: ParseDuration_def Let_def split: if_splits)
      qed
      then show ?thesis using rr by simp
    qed
  qed
qed

lemma setValue_duration:
  "setValue L TDuration (s # rest) h v =
     (case ParseDuration L s of Inl e \<Rightarrow> (Fail e, h, v) | Inr d \<Rightarrow> (OK, h, VInt d))"
proof (cases "ParseDuration L s")
  case (Inl e)
  then show ?thesis by (simp add: setValue.simps setInt_def)
next
  case (Inr d)
  have "wrapS 64 d = d" using ParseDuration_range [OF Inr] by (intro wrapS_id) simp_all
  then show ?thesis using Inr by (simp add: setValue.simps setInt_def SetInt_def)
qed

lemma ParseDuration_1h: "ParseDuration L ''1h'' = Inr (3600 * 1000000000)"
  by (simp add: ParseDuration_def durationLoop.simps durationStep_def isDigit_def byte_def
       notUnitEnd_def unitMap_def Let_def)

lemma ParseDuration_1:
  "ParseDuration L ''1'' = Inl (errorString (''time: missing unit in duration '' @ quote L ''1''))"
  by (simp add: ParseDuration_def durationLoop.simps durationStep_def isDigit_def byte_def
       notUnitEnd_def unitMap_def Let_def)


section \<open>Byte slices\<close>

lemma byte_range: "0 \<le> byte c \<and> byte c < 256"
proof -
  have "byte c = int (of_char c)" by (simp add: byte_def of_nat_of_char)
  moreover have "(of_char c :: nat) < 256"
    by (metis of_char_mod_256 mod_less_divisor zero_less_numeral)
  ultimately show ?thesis by simp
qed

lemma runeLen_pos: "1 \<le> runeLen (c # cs)"
  by (auto simp: runeLen_def split: option.splits)

lemma explode_nonempty: "p \<in> set (explode s) \<Longrightarrow> p \<noteq> []"
proof (induction s arbitrary: p rule: explode.induct)
  case 1
  then show ?case by simp
next
  case (2 c cs)
  obtain k where k: "runeLen (c # cs) = Suc k"
    using runeLen_pos [of c cs] by (cases "runeLen (c # cs)") auto
  show ?case using 2 k by (auto simp: Let_def)
qed

lemma explode_ascii: "\<forall>c\<in>set s. byte c < 128 \<Longrightarrow> explode s = map (\<lambda>c. [c]) s"
proof (induction s)
  case Nil
  then show ?case by simp
next
  case (Cons c cs)
  have "runeLen (c # cs) = 1" using Cons.prems by (simp add: runeLen_def first_def)
  then show ?case using Cons by (simp add: Let_def)
qed

lemma byteValues_map:
  "\<forall>p\<in>set ps. p \<noteq> [] \<Longrightarrow> byteValues ps = Some (map (\<lambda>p. FormatUint (byte (hd p))) ps)"
  by (induction ps) (auto split: list.splits)

lemma setValue_byte:
  "setValue L TUint8 [FormatUint (byte c)] h z = (OK, h, VUint (byte c))"
proof -
  have b: "0 \<le> byte c" "byte c < 2 ^ kindBits TUint8" using byte_range [of c] by simp_all
  have t: "TUint8 \<in> set unsignedTypes" by (simp add: unsignedTypes_def)
  have F: "FormatInt (byte c) = FormatUint (byte c)" using b by (simp add: FormatInt_def)
  show ?thesis using setUInt_FormatUint [OF t b(1), of L "[]" h z] b(2) unfolding F by simp
qed

lemma setSliceLoop_bytes:
  "\<forall>p\<in>set ps. p \<noteq> [] \<Longrightarrow>
     setSliceLoop L TUint8 (map (\<lambda>p. FormatUint (byte (hd p))) ps) h
       = (OK, h, map (\<lambda>p. VUint (byte (hd p))) ps)"
  by (induction ps) (simp_all add: setValue_byte)

lemma setSlice_bytes:
  "setValue L (TSlice TUint8) (s # rest) h v
     = (OK, h, VSlice (Some (map (\<lambda>p. VUint (byte (hd p))) (explode s))))"
proof -
  have ne: "\<forall>p\<in>set (explode s). p \<noteq> []" using explode_nonempty by blast
  show ?thesis
    by (simp add: setValue.simps byteValues_map [OF ne] setSliceLoop_bytes [OF ne])
qed

section \<open>The loops of the driver\<close>






text \<open>
  The test \<open>TestFillStructWithInvalidJson\<close>, with a decoder that rejects the text: the
  rendered value is the text itself.
\<close>

lemma malformed_json_rendered:
  "To rejectLib [fooSource [''{ bad'']]
      (Iface (TPtr (TStruct [StructField ''Struct'' [(''foo'', ''bar'')] True
                              (TStruct [StructField ''Hello'' [(''json'', ''hello'')] True TString])]))
         (VPtr (Some 0)))
      [VStruct [VStruct [VString ''world'']]]
    = (Fail (Error ''bar'' ''foo'' ''{ bad'' (errorString ''invalid character'')),
       [VStruct [VStruct [VString ''world'']]])"
  by code_simp















section \<open>The claims\<close>

text \<open>
  C6. Round trip: for an integer \<open>n\<close> that the width of a plain signed integer field can
  represent, coercing the decimal rendering of \<open>n\<close> (alone or followed by more raw strings,
  which are ignored) succeeds, leaves the heap as it was and stores exactly \<open>n\<close>; the same
  for a plain unsigned integer field and \<open>0 \<le> n < 2 ^ width\<close>. A field of type
  \<open>time.Duration\<close> is parsed as a duration literal instead and is the subject of C7.
\<close>

theorem decimal_rendering_round_trip:
  "(t \<in> set signedTypes \<and> - (2 ^ (kindBits t - 1)) \<le> n \<and> n < 2 ^ (kindBits t - 1)
      \<longrightarrow> setValue L t (FormatInt n # rest) h v = (OK, h, VInt n))
   \<and> (t \<in> set unsignedTypes \<and> 0 \<le> n \<and> n < 2 ^ kindBits t
      \<longrightarrow> setValue L t (FormatInt n # rest) h v = (OK, h, VUint n))"
  using setInt_FormatInt [of t L n rest h v] setUInt_FormatUint [of t n L rest h v] by simp

theorem decimal_rendering_round_trip_witness:
  "TInt8 \<in> set signedTypes \<and> - (2 ^ (kindBits TInt8 - 1)) \<le> (-128 :: int) \<and> (-128 :: int) < 2 ^ (kindBits TInt8 - 1)
   \<and> setValue rejectLib TInt8 [''-128''] [] (VInt 5) = (OK, [], VInt (-128))
   \<and> TUint16 \<in> set unsignedTypes \<and> (0::int) \<le> 65535 \<and> (65535 :: int) < 2 ^ kindBits TUint16
   \<and> setValue rejectLib TUint16 [''65535''] [] (VUint 5) = (OK, [], VUint 65535)"
proof -
  have 1: "TInt8 \<in> set signedTypes \<and> - (2 ^ (kindBits TInt8 - 1)) \<le> (-128 :: int) \<and> (-128 :: int) < 2 ^ (kindBits TInt8 - 1)"
    by (simp add: signedTypes_def)
  have 2: "TUint16 \<in> set unsignedTypes \<and> (0::int) \<le> 65535 \<and> (65535 :: int) < 2 ^ kindBits TUint16"
    by (simp add: unsignedTypes_def)
  have f1: "FormatInt (-128) = ''-128''" by code_simp
  have f2: "FormatInt 65535 = ''65535''" by code_simp
  show ?thesis
    using 1 2
      decimal_rendering_round_trip [of TInt8 "-128" rejectLib "[]" "[]" "VInt 5"]
      decimal_rendering_round_trip [of TUint16 65535 rejectLib "[]" "[]" "VUint 5"]
    unfolding f1 f2 by blast
qed

text \<open>
  C3. A scalar field whose first raw string does not parse: the coercion returns the
  error of the parser of the field's type as it is, and the heap and the value of the field
  are the ones from before the call. This holds for the plain signed and unsigned integers of
  every width, booleans, floats of both precisions and durations; the last two conjuncts
  are the numeric strings out of the range of the width, the decimal rendering of any
  integer below or above it.
\<close>

theorem scalar_failure_keeps_field:
  "(t \<in> set signedTypes \<and> snd (ParseInt s (kindBits t)) = Some e
      \<longrightarrow> setValue L t (s # rest) h v = (Fail e, h, v))
   \<and> (t \<in> set unsignedTypes \<and> snd (ParseUint s (kindBits t)) = Some e
      \<longrightarrow> setValue L t (s # rest) h v = (Fail e, h, v))
   \<and> (snd (ParseBool s) = Some e \<longrightarrow> setValue L TBool (s # rest) h v = (Fail e, h, v))
   \<and> (ParseFloat L s 32 = Inl e \<longrightarrow> setValue L TFloat32 (s # rest) h v = (Fail e, h, v))
   \<and> (ParseFloat L s 64 = Inl e \<longrightarrow> setValue L TFloat64 (s # rest) h v = (Fail e, h, v))
   \<and> (ParseDuration L s = Inl e \<longrightarrow> setValue L TDuration (s # rest) h v = (Fail e, h, v))
   \<and> (t \<in> set signedTypes \<and> (n < - (2 ^ (kindBits t - 1)) \<or> 2 ^ (kindBits t - 1) \<le> n)
      \<longrightarrow> setValue L t (FormatInt n # rest) h v
            = (Fail (rangeError ''ParseInt'' (FormatInt n)), h, v))
   \<and> (t \<in> set unsignedTypes \<and> 2 ^ kindBits t \<le> n
      \<longrightarrow> setValue L t (FormatInt n # rest) h v
            = (Fail (rangeError ''ParseUint'' (FormatInt n)), h, v))"
proof -
  have 1: "t \<in> set signedTypes \<and> snd (ParseInt s (kindBits t)) = Some e
      \<longrightarrow> setValue L t (s # rest) h v = (Fail e, h, v)"
    using kindBits_signed [of t] by (auto simp: setValue_signed intro: setInt_error)
  have 2: "t \<in> set unsignedTypes \<and> snd (ParseUint s (kindBits t)) = Some e
      \<longrightarrow> setValue L t (s # rest) h v = (Fail e, h, v)"
    by (auto simp: setValue_unsigned intro: setUInt_error)
  have 3: "t \<in> set signedTypes \<and> (n < - (2 ^ (kindBits t - 1)) \<or> 2 ^ (kindBits t - 1) \<le> n)
      \<longrightarrow> setValue L t (FormatInt n # rest) h v
            = (Fail (rangeError ''ParseInt'' (FormatInt n)), h, v)"
    using setInt_FormatInt [of t L n rest h v] by auto
  have p: "(0::int) \<le> 2 ^ kindBits t" by simp
  have 4: "t \<in> set unsignedTypes \<and> 2 ^ kindBits t \<le> n
      \<longrightarrow> setValue L t (FormatInt n # rest) h v
            = (Fail (rangeError ''ParseUint'' (FormatInt n)), h, v)"
  proof (intro impI, elim conjE)
    assume a: "t \<in> set unsignedTypes" "2 ^ kindBits t \<le> n"
    then have "0 \<le> n" using p by linarith
    from setUInt_FormatUint [OF a(1) this, of L rest h v] a(2) show
      "setValue L t (FormatInt n # rest) h v = (Fail (rangeError ''ParseUint'' (FormatInt n)), h, v)"
      by simp
  qed
  show ?thesis
    using 1 2 3 4 setBool_error [of s e L rest h v] setFloat_error [of L s e rest h v]
      setDuration_error [of L s e rest h v]
    by blast
qed

theorem scalar_failure_keeps_field_witness:
  "TInt8 \<in> set signedTypes \<and> snd (ParseInt ''12a'' (kindBits TInt8)) = Some (syntaxError ''ParseInt'' ''12a'')
   \<and> setValue rejectLib TInt8 [''12a''] [] (VInt 7) = (Fail (syntaxError ''ParseInt'' ''12a''), [], VInt 7)
   \<and> (128::int) \<ge> 2 ^ (kindBits TInt8 - 1)
   \<and> setValue rejectLib TInt8 [''128''] [] (VInt 7) = (Fail (rangeError ''ParseInt'' ''128''), [], VInt 7)
   \<and> TUint8 \<in> set unsignedTypes \<and> (256::int) \<ge> 2 ^ kindBits TUint8
   \<and> setValue rejectLib TUint8 [''256''] [] (VUint 7) = (Fail (rangeError ''ParseUint'' ''256''), [], VUint 7)
   \<and> snd (ParseUint ''-1'' (kindBits TUint8)) = Some (syntaxError ''ParseUint'' ''-1'')
   \<and> setValue rejectLib TUint8 [''-1''] [] (VUint 7) = (Fail (syntaxError ''ParseUint'' ''-1''), [], VUint 7)
   \<and> snd (ParseBool ''yes'') = Some (syntaxError ''ParseBool'' ''yes'')
   \<and> setValue rejectLib TBool [''yes''] [] (VBool True) = (Fail (syntaxError ''ParseBool'' ''yes''), [], VBool True)
   \<and> ParseFloat rejectLib ''x'' 32 = Inl (syntaxError ''ParseFloat'' ''x'')
   \<and> setValue rejectLib TFloat32 [''x''] [] (VFloat ()) = (Fail (syntaxError ''ParseFloat'' ''x''), [], VFloat ())
   \<and> ParseFloat rejectLib ''x'' 64 = Inl (syntaxError ''ParseFloat'' ''x'')
   \<and> setValue rejectLib TFloat64 [''x''] [] (VFloat ()) = (Fail (syntaxError ''ParseFloat'' ''x''), [], VFloat ())
   \<and> ParseDuration rejectLib ''1'' = Inl (errorString (''time: missing unit in duration '' @ quote rejectLib ''1''))
   \<and> setValue rejectLib TDuration [''1''] [] (VInt 1000000000)
        = (Fail (errorString (''time: missing unit in duration '' @ quote rejectLib ''1'')), [], VInt 1000000000)"
proof -
  have s: "TInt8 \<in> set signedTypes" "TUint8 \<in> set unsignedTypes"
    by (simp_all add: signedTypes_def unsignedTypes_def)
  have k: "(128::int) \<ge> 2 ^ (kindBits TInt8 - 1)" "(256::int) \<ge> 2 ^ kindBits TUint8" by simp_all
  have p1: "snd (ParseInt ''12a'' (kindBits TInt8)) = Some (syntaxError ''ParseInt'' ''12a'')" by code_simp
  have p2: "snd (ParseUint ''-1'' (kindBits TUint8)) = Some (syntaxError ''ParseUint'' ''-1'')" by code_simp
  have p3: "snd (ParseBool ''yes'') = Some (syntaxError ''ParseBool'' ''yes'')" by code_simp
  have p4: "ParseFloat rejectLib ''x'' 32 = Inl (syntaxError ''ParseFloat'' ''x'')"
    "ParseFloat rejectLib ''x'' 64 = Inl (syntaxError ''ParseFloat'' ''x'')"
    by (simp_all add: rejectLib_def)
  have p5: "ParseDuration rejectLib ''1'' = Inl (errorString (''time: missing unit in duration '' @ quote rejectLib ''1''))"
    by code_simp
  have f: "FormatInt 128 = ''128''" "FormatInt 256 = ''256''" by code_simp+
  note T = scalar_failure_keeps_field
  have w1: "setValue rejectLib TInt8 [''12a''] [] (VInt 7) = (Fail (syntaxError ''ParseInt'' ''12a''), [], VInt 7)"
    using s(1) p1 T [of TInt8 "''12a''" "syntaxError ''ParseInt'' ''12a''" rejectLib "[]" "[]" "VInt 7" 128]
    by blast
  have w2: "setValue rejectLib TInt8 [''128''] [] (VInt 7) = (Fail (rangeError ''ParseInt'' ''128''), [], VInt 7)"
    using s(1) k(1) T [of TInt8 "''12a''" "syntaxError ''ParseInt'' ''12a''" rejectLib "[]" "[]" "VInt 7" 128]
    unfolding f by blast
  have w3: "setValue rejectLib TUint8 [''256''] [] (VUint 7) = (Fail (rangeError ''ParseUint'' ''256''), [], VUint 7)"
    using s(2) k(2) T [of TUint8 "''-1''" "syntaxError ''ParseUint'' ''-1''" rejectLib "[]" "[]" "VUint 7" 256]
    unfolding f by blast
  have w4: "setValue rejectLib TUint8 [''-1''] [] (VUint 7) = (Fail (syntaxError ''ParseUint'' ''-1''), [], VUint 7)"
    using s(2) p2 T [of TUint8 "''-1''" "syntaxError ''ParseUint'' ''-1''" rejectLib "[]" "[]" "VUint 7" 256]
    by blast
  have w5: "setValue rejectLib TBool [''yes''] [] (VBool True) = (Fail (syntaxError ''ParseBool'' ''yes''), [], VBool True)"
    using p3 T [of TBool "''yes''" "syntaxError ''ParseBool'' ''yes''" rejectLib "[]" "[]" "VBool True" 0]
    by blast
  have w6: "setValue rejectLib TFloat32 [''x''] [] (VFloat ()) = (Fail (syntaxError ''ParseFloat'' ''x''), [], VFloat ())"
    "setValue rejectLib TFloat64 [''x''] [] (VFloat ()) = (Fail (syntaxError ''ParseFloat'' ''x''), [], VFloat ())"
    using p4 T [of TBool "''x''" "syntaxError ''ParseFloat'' ''x''" rejectLib "[]" "[]" "VFloat ()" 0]
    by blast+
  have w7: "setValue rejectLib TDuration [''1''] [] (VInt 1000000000)
        = (Fail (errorString (''time: missing unit in duration '' @ quote rejectLib ''1'')), [], VInt 1000000000)"
    using p5 T [of TBool "''1''" "errorString (''time: missing unit in duration '' @ quote rejectLib ''1'')" rejectLib "[]" "[]" "VInt 1000000000" 0]
    by blast
  show ?thesis
    by (intro conjI s k p1 p2 p3 p4 p5 w1 w2 w3 w4 w5 w6 w7)
qed

text \<open>
  C4. With an empty source list and a destination that is not \<open>nil\<close>, \<open>To\<close> returns
  \<open>nil\<close> and the heap, which holds every field of the destination, is the one it was
  given.
\<close>

theorem empty_sources_no_op: "To L [] (Iface t v) h = (OK, h)"
  by (simp add: To_def)

text \<open>
  C5. With the \<open>nil\<close> interface value as destination, \<open>To\<close> returns the error
  \<open>given struct to fill is nil\<close>, whatever the sources are: no resolver is asked and the
  heap is untouched. A \<open>nil\<close> pointer to a struct is an absent destination as well, but it is
  a non-\<open>nil\<close> interface value and \<open>obj == nil\<close> does not catch it: with at least one source,
  \<open>To\<close> goes on to \<open>valueOf.Type()\<close> on the zero \<open>reflect.Value\<close> and panics, where the
  error was to be returned.
\<close>

theorem nil_pointer_destination_panics:
  "To L sources NilIface h = (Fail (errorString ''given struct to fill is nil''), h)
   \<and> To L (s # ss) (Iface (TPtr t) (VPtr None)) h
       = (Panic ''reflect: call of reflect.Value.Type on zero Value'', h)
   \<and> fst (To L (s # ss) (Iface (TPtr t) (VPtr None)) h)
       \<noteq> Fail (errorString ''given struct to fill is nil'')"
  by (simp add: To_def)

text \<open>
  C9 as stated fails: for the bag \<open>{"invalid", "value"}\<close> and a slice-of-int field (the test
  \<open>TestFillSliceWithInvalidValue\<close>) the rendered value is \<open>invalid\<close>, the string that the
  parser rejected, not the bracket-joined list.
\<close>

theorem rendered_value_counterexample:
  "To rejectLib [fooSource [''invalid'', ''value'']]
      (Iface (TPtr (TStruct sliceStruct)) (VPtr (Some 0))) [VStruct [VSlice (Some [VInt 1])]]
    = (Fail (Error ''bar'' ''foo'' ''invalid'' (NumError ''ParseInt'' ''invalid'' ErrSyntax)),
       [VStruct [VSlice (Some [VInt 1])]])
   \<and> ''invalid'' \<noteq> ''['' @ Join [''invalid'', ''value''] '' '' @ '']''"
  by code_simp

text \<open>
  C9, amended. The structured error carries the lookup key, the source name and the
  underlying error as given. Its rendered value is the string the underlying error
  carries when that is a \<open>*strconv.NumError\<close> (its \<open>Num\<close>), a \<open>*time.ParseError\<close> (its
  \<open>Value\<close>) or a \<open>*json.UnsupportedValueError\<close> (its \<open>Str\<close>); for every other underlying
  error it is empty for an empty bag, the string itself for a bag of one string, and the
  strings joined by spaces between brackets for a longer bag.
\<close>

theorem rendered_value:
  "newError field source vals err =
     Error field source
       (case err of
          NumError fn num e \<Rightarrow> num
        | ParseError layout value msg \<Rightarrow> value
        | UnsupportedValueError str \<Rightarrow> str
        | _ \<Rightarrow> (case vals of [] \<Rightarrow> [] | [x] \<Rightarrow> x | _ \<Rightarrow> ''['' @ Join vals '' '' @ '']''))
       err"
  by (cases err; cases vals; cases "tl vals") (auto simp: newError_def)

text \<open>
  C10. With an empty source list and the \<open>nil\<close> interface value as destination, the check of
  the destination comes first and the call returns the error. With an empty source list
  and a \<open>nil\<close> pointer as destination, \<open>obj == nil\<close> is false, the check of the sources comes
  next and the call returns \<open>nil\<close>: it succeeds on an absent destination, where the error
  was to be returned.
\<close>

theorem nil_pointer_destination_empty_sources:
  "fst (To L [] NilIface h) = Fail (errorString ''given struct to fill is nil'')
   \<and> To L [] (Iface (TPtr t) (VPtr None)) h = (OK, h)
   \<and> fst (To L [] (Iface (TPtr t) (VPtr None)) h)
       \<noteq> Fail (errorString ''given struct to fill is nil'')"
  by (simp add: To_def)

text \<open>
  C7. A field of type \<open>time.Duration\<close> is coerced by parsing the first raw string as a
  duration literal: on a parse error the coercion returns it and the heap and the field
  are left as they were, otherwise the field holds the parsed number of nanoseconds (which
  always fits its 64 bits). \<open>"1h"\<close> gives 3600 seconds, counted in nanoseconds; \<open>"1"\<close>, with no
  unit, gives the error \<open>missing unit in duration\<close> and keeps the field.
\<close>

theorem duration_field:
  "setValue L TDuration (s # rest) h v =
     (case ParseDuration L s of Inl e \<Rightarrow> (Fail e, h, v) | Inr d \<Rightarrow> (OK, h, VInt d))
   \<and> setValue L TDuration (''1h'' # rest) h v = (OK, h, VInt (3600 * 1000000000))
   \<and> setValue L TDuration (''1'' # rest) h v
       = (Fail (errorString (''time: missing unit in duration '' @ quote L ''1'')), h, v)"
  by (simp add: setValue_duration ParseDuration_1h ParseDuration_1 del: One_nat_def)

text \<open>
  C8. A pointer field: when the raw strings coerce into a new zero cell of the pointed-to
  type with result \<open>x\<close>, the field ends up holding the address of a cell that did not
  exist before the call, that cell holds \<open>x\<close>, and no older cell has changed. Whatever the
  outcome, the field holds that new address afterwards, never \<open>nil\<close>. A pointer-to-string
  field given \<open>"x"\<close> points to a new cell holding \<open>"x"\<close>.
\<close>

theorem pointer_field_fresh:
  "(setValue L t vals (h @ [zero L t]) (zero L t) = (OK, h1, x)
      \<longrightarrow> (\<exists>h'. setValue L (TPtr t) vals h v = (OK, h', VPtr (Some (length h)))
                \<and> length h < length h' \<and> h' ! length h = x \<and> take (length h) h' = h))
   \<and> (\<forall>r h' v'. setValue L (TPtr t) vals h v = (r, h', v')
          \<longrightarrow> v' = VPtr (Some (length h)) \<and> length h < length h' \<and> take (length h) h' = h)
   \<and> setValue L (TPtr TString) (''x'' # rest) h v
       = (OK, h @ [VString ''x''], VPtr (Some (length h)))"
proof (intro conjI)
  show "setValue L t vals (h @ [zero L t]) (zero L t) = (OK, h1, x)
      \<longrightarrow> (\<exists>h'. setValue L (TPtr t) vals h v = (OK, h', VPtr (Some (length h)))
                \<and> length h < length h' \<and> h' ! length h = x \<and> take (length h) h' = h)"
  proof
    assume a: "setValue L t vals (h @ [zero L t]) (zero L t) = (OK, h1, x)"
    have e: "extends (h @ [zero L t]) h1" using heap_extends(1) a by blast
    then have l: "length h < length h1" by (simp add: extends_def)
    have e2: "extends h (h1[length h := x])" using e by (rule extends_alloc)
    have "setValue L (TPtr t) vals h v = (OK, h1[length h := x], VPtr (Some (length h)))"
      using a by (simp add: setValue.simps Let_def)
    then show "\<exists>h'. setValue L (TPtr t) vals h v = (OK, h', VPtr (Some (length h)))
                \<and> length h < length h' \<and> h' ! length h = x \<and> take (length h) h' = h"
      using l e2 by (simp add: extends_def)
  qed
next
  show "\<forall>r h' v'. setValue L (TPtr t) vals h v = (r, h', v')
          \<longrightarrow> v' = VPtr (Some (length h)) \<and> length h < length h' \<and> take (length h) h' = h"
  proof (intro allI impI)
    fix r h' v' assume a: "setValue L (TPtr t) vals h v = (r, h', v')"
    obtain r1 h1 x where s: "setValue L t vals (h @ [zero L t]) (zero L t) = (r1, h1, x)"
      by (metis prod_cases3)
    have e: "extends (h @ [zero L t]) h1" using heap_extends(1) s by blast
    then have l: "length h < length h1" by (simp add: extends_def)
    have e2: "extends h (h1[length h := x])" using e by (rule extends_alloc)
    have "setValue L (TPtr t) vals h v = (r1, h1[length h := x], VPtr (Some (length h)))"
      using s by (simp add: setValue.simps Let_def)
    then show "v' = VPtr (Some (length h)) \<and> length h < length h' \<and> take (length h) h' = h"
      using a l e2 by (auto simp add: extends_def)
  qed
next
  show "setValue L (TPtr TString) (''x'' # rest) h v
       = (OK, h @ [VString ''x''], VPtr (Some (length h)))"
    by (simp add: setValue.simps setString_def Let_def)
qed

theorem pointer_field_fresh_witness:
  "setValue rejectLib TInt8 [''-7''] ([VString ''old''] @ [zero rejectLib TInt8]) (zero rejectLib TInt8)
      = (OK, [VString ''old'', VInt 0], VInt (-7))
   \<and> (\<exists>h'. setValue rejectLib (TPtr TInt8) [''-7''] [VString ''old''] (VPtr None)
              = (OK, h', VPtr (Some 1))
            \<and> 1 < length h' \<and> h' ! 1 = VInt (-7) \<and> take 1 h' = [VString ''old''])
   \<and> setValue rejectLib (TPtr TInt8) [''-7''] [VString ''old''] (VPtr None)
        = (OK, [VString ''old'', VInt (-7)], VPtr (Some 1))"
proof -
  have a: "setValue rejectLib TInt8 [''-7''] ([VString ''old''] @ [zero rejectLib TInt8]) (zero rejectLib TInt8)
      = (OK, [VString ''old'', VInt 0], VInt (-7))"
    by code_simp
  have b: "setValue rejectLib (TPtr TInt8) [''-7''] [VString ''old''] (VPtr None)
        = (OK, [VString ''old'', VInt (-7)], VPtr (Some 1))"
    by code_simp
  have "\<exists>h'. setValue rejectLib (TPtr TInt8) [''-7''] [VString ''old''] (VPtr None)
              = (OK, h', VPtr (Some 1))
            \<and> 1 < length h' \<and> h' ! 1 = VInt (-7) \<and> take 1 h' = [VString ''old'']"
    using pointer_field_fresh [of rejectLib TInt8 "[''-7'']" "[VString ''old'']"
      "[VString ''old'', VInt 0]" "VInt (-7)" "VPtr None", THEN conjunct1, THEN mp, OF a]
    by simp
  then show ?thesis using a b by blast
qed



text \<open>
  C2 as stated fails: for a byte slice and the three raw strings \<open>"1"\<close>, \<open>"2"\<close>, \<open>"3"\<close> the
  result is the one byte 49 of the character \<open>1\<close>, not one element per raw string, although
  each string coerces into a byte on its own.
\<close>

theorem byte_slice_counterexample:
  "setValue rejectLib (TSlice TUint8) [''1'', ''2'', ''3''] [] (VSlice None)
     = (OK, [], VSlice (Some [VUint 49]))
   \<and> setValue rejectLib TUint8 [''1''] [] (VUint 0) = (OK, [], VUint 1)
   \<and> setValue rejectLib TUint8 [''2''] [] (VUint 0) = (OK, [], VUint 2)
   \<and> setValue rejectLib TUint8 [''3''] [] (VUint 0) = (OK, [], VUint 3)
   \<and> setValue rejectLib (TSlice TUint8) [''1'', ''2'', ''3''] [] (VSlice None)
     \<noteq> (OK, [], VSlice (Some [VUint 1, VUint 2, VUint 3]))"
  by code_simp

text \<open>
  C2, amended. For a slice whose element kind is \<open>uint8\<close> only the first raw string counts,
  however many are supplied: the coercion succeeds, leaves the heap as it was, and the
  slice has one element per character of that string (as \<open>strings.Split(s, "")\<close> cuts it),
  the first byte of the character. For a string of ASCII characters that is one byte per
  byte of the string; \<open>"AB"\<close> gives 65, 66.
\<close>

theorem byte_slice_from_first_string:
  "setValue L (TSlice TUint8) (s # rest) h v
     = (OK, h, VSlice (Some (map (\<lambda>p. VUint (byte (hd p))) (explode s))))
   \<and> ((\<forall>c\<in>set s. byte c < 128)
        \<longrightarrow> setValue L (TSlice TUint8) (s # rest) h v
              = (OK, h, VSlice (Some (map (\<lambda>c. VUint (byte c)) s))))
   \<and> setValue L (TSlice TUint8) (''AB'' # rest) h v = (OK, h, VSlice (Some [VUint 65, VUint 66]))"
proof (intro conjI)
  show g: "setValue L (TSlice TUint8) (s # rest) h v
     = (OK, h, VSlice (Some (map (\<lambda>p. VUint (byte (hd p))) (explode s))))" for s
    by (rule setSlice_bytes)
  show "(\<forall>c\<in>set s. byte c < 128)
        \<longrightarrow> setValue L (TSlice TUint8) (s # rest) h v
              = (OK, h, VSlice (Some (map (\<lambda>c. VUint (byte c)) s)))"
    by (simp add: g explode_ascii comp_def)
  have "explode ''AB'' = [''A'', ''B'']" by code_simp
  then show "setValue L (TSlice TUint8) (''AB'' # rest) h v = (OK, h, VSlice (Some [VUint 65, VUint 66]))"
    by (simp add: g byte_def)
qed

theorem byte_slice_from_first_string_witness:
  "byte (CHR ''A'') < 128 \<and> byte (CHR ''B'') < 128
   \<and> setValue rejectLib (TSlice TUint8) [''AB'', ''CD''] [] (VSlice None)
       = (OK, [], VSlice (Some [VUint 65, VUint 66]))"
proof -
  have a: "\<forall>c\<in>set ''AB''. byte c < 128" by (simp add: byte_def)
  have "setValue rejectLib (TSlice TUint8) (''AB'' # [''CD'']) [] (VSlice None)
       = (OK, [], VSlice (Some (map (\<lambda>c. VUint (byte c)) ''AB'')))"
    using byte_slice_from_first_string [of rejectLib "''AB''" "[''CD'']" "[]" "VSlice None",
        THEN conjunct2, THEN conjunct1, THEN mp, OF a] .
  then show ?thesis by (simp add: byte_def)
qed

end
